theory Spec2Isabelle
  imports Complex_Main "HOL-Library.Multiset" "HOL-Library.Sublist"
begin

section \<open>Data model\<close>

text \<open>
  The dashboard component (\<^verbatim>\<open>src/frontend/src/components/Dashboard.tsx\<close>) reads the
  analysis result it is given as a property. JavaScript numbers are modelled as exact
  rationals (no rounding, no NaN, no infinities); a field that may be missing, \<^verbatim>\<open>null\<close>
  or \<^verbatim>\<open>undefined\<close> is an \<open>option\<close>. The objects \<^verbatim>\<open>individual_scores\<close> and the criteria
  source are the association lists of their entries as \<^verbatim>\<open>Object.keys\<close> and
  \<^verbatim>\<open>Object.entries\<close> enumerate them. The object \<^verbatim>\<open>case_data\<close> is the list of its own
  properties in the order of their insertion, each key once; how JavaScript enumerates
  and looks up such an object is modelled in the section on resolving a value.

  A value of \<^verbatim>\<open>case_data\<close> is \<^verbatim>\<open>null\<close>, a number or a string; \<open>JInherited n\<close> is what
  \<^verbatim>\<open>Object.prototype\<close> provides under the name \<open>n\<close> (a function, or the prototype itself),
  which a lookup can return though no case holds it.
\<close>

datatype jsval = JNull | JNum rat | JStr string | JInherited string

record score_result =
  case_id :: string
  total_score :: "rat option"
  max_possible_score :: "rat option"
  percentage :: "rat option"
  individual_scores :: "(string \<times> rat) list option"
  eligibility_status :: "string option"
  case_data :: "(string \<times> jsval) list option"

text \<open>
  \<^verbatim>\<open>x || d\<close> picks \<^verbatim>\<open>d\<close> whenever \<^verbatim>\<open>x\<close> is falsy: for a number that is missing, \<^verbatim>\<open>null\<close>
  or \<^verbatim>\<open>0\<close>; for a string that is missing, \<^verbatim>\<open>null\<close> or empty.
\<close>

definition num_or :: "rat option \<Rightarrow> rat \<Rightarrow> rat" where
  "num_or x d = (case x of None \<Rightarrow> d | Some v \<Rightarrow> (if v = 0 then d else v))"

definition str_or :: "string option \<Rightarrow> string \<Rightarrow> string" where
  "str_or x d = (case x of None \<Rightarrow> d | Some v \<Rightarrow> (if v = [] then d else v))"

record scoring_interval =
  iv_score :: rat
  iv_range :: "string option"
  iv_condition :: "string option"
  iv_interval :: "string option"

record criterion =
  parameter :: "string option"
  weight :: "rat option"
  min_value :: "rat option"
  max_value :: "rat option"
  preferred_value :: "string option"
  scoring_intervals :: "scoring_interval list option"
  description :: "string option"

section \<open>Summary statistics\<close>

text \<open>
  \<^verbatim>\<open>
  const totalCases = results.length
  const avgScore = results.length > 0
    ? results.reduce((sum, result) => sum + (result.percentage || 0), 0) / results.length
    : 0
  const approvedCount = results.filter(result => result.eligibility_status === 'Eligible').length
  const rejectedCount = results.filter(result => result.eligibility_status === 'Not Eligible').length
  const reviewCount = results.filter(result => result.eligibility_status === 'Review Required').length
  \<close>
  Dividing by zero gives no finite number in JavaScript (\<^verbatim>\<open>NaN\<close> for \<^verbatim>\<open>0 / 0\<close>, an infinity
  otherwise); \<open>js_divide\<close> answers \<open>None\<close> then, so that a quotient is \<open>Some\<close> only when
  the divisor is not zero.
\<close>

definition totalCases :: "score_result list \<Rightarrow> nat" where
  "totalCases results = length results"

definition js_divide :: "rat \<Rightarrow> rat \<Rightarrow> rat option" where
  "js_divide x y = (if y = 0 then None else Some (x / y))"

definition avgScore :: "score_result list \<Rightarrow> rat option" where
  "avgScore results =
     (if length results > 0
      then js_divide (foldl (\<lambda>sum result. sum + num_or (percentage result) 0) 0 results)
             (of_nat (length results))
      else Some 0)"

definition approvedCount :: "score_result list \<Rightarrow> nat" where
  "approvedCount results =
     length (filter (\<lambda>result. eligibility_status result = Some ''Eligible'') results)"

definition rejectedCount :: "score_result list \<Rightarrow> nat" where
  "rejectedCount results =
     length (filter (\<lambda>result. eligibility_status result = Some ''Not Eligible'') results)"

definition reviewCount :: "score_result list \<Rightarrow> nat" where
  "reviewCount results =
     length (filter (\<lambda>result. eligibility_status result = Some ''Review Required'') results)"

text \<open>The data row of \<^verbatim>\<open>statusPieData\<close>: \<^verbatim>\<open>[approvedCount, reviewCount, rejectedCount]\<close>.\<close>

definition statusPieData :: "score_result list \<Rightarrow> nat list" where
  "statusPieData results = [approvedCount results, reviewCount results, rejectedCount results]"

section \<open>Score distribution\<close>

text \<open>
  \<^verbatim>\<open>
  const distribution = [0, 0, 0, 0, 0]
  results.forEach(result => {
    const score = result.percentage || 0
    if (score <= 20) distribution[0]++
    else if (score <= 40) distribution[1]++
    else if (score <= 60) distribution[2]++
    else if (score <= 80) distribution[3]++
    else distribution[4]++
  })
  \<close>
  The array is updated in place by the loop body; the model threads it through a fold.
\<close>

definition increment :: "nat list \<Rightarrow> nat \<Rightarrow> nat list" where
  "increment distribution i = distribution[i := distribution ! i + 1]"

definition distribution_step :: "nat list \<Rightarrow> score_result \<Rightarrow> nat list" where
  "distribution_step distribution result =
     (let score = num_or (percentage result) 0 in
      if score \<le> 20 then increment distribution 0
      else if score \<le> 40 then increment distribution 1
      else if score \<le> 60 then increment distribution 2
      else if score \<le> 80 then increment distribution 3
      else increment distribution 4)"

definition getScoreDistributionData :: "score_result list \<Rightarrow> nat list" where
  "getScoreDistributionData results = foldl distribution_step [0, 0, 0, 0, 0] results"

text \<open>
  The five bins as the specification words them: \<open>[0,20]\<close>, \<open>(20,40]\<close>, \<open>(40,60]\<close>,
  \<open>(60,80]\<close>, \<open>(80,100]\<close>, numbered from 0.
\<close>

definition spec_bin :: "nat \<Rightarrow> rat \<Rightarrow> bool" where
  "spec_bin k x =
     (if k = 0 then 0 \<le> x \<and> x \<le> 20
      else if k = 1 then 20 < x \<and> x \<le> 40
      else if k = 2 then 40 < x \<and> x \<le> 60
      else if k = 3 then 60 < x \<and> x \<le> 80
      else if k = 4 then 80 < x \<and> x \<le> 100
      else False)"

section \<open>Per-parameter views\<close>

text \<open>
  \<^verbatim>\<open>
  const getCriteriaPerformanceData = () => {
    if (results.length === 0) return null
    const criteriaNames = Object.keys(results[0]?.individual_scores || {})
    const datasets = criteriaNames.map((criteria, index) => ({
      label: criteria,
      data: results.map(result => result.individual_scores?.[criteria] || 0), ... }))
    return { labels: results.map(result => result.case_id), datasets }
  }
  const getRadarData = () => {
    if (results.length === 0) return null
    const criteriaNames = Object.keys(results[0]?.individual_scores || {})
    const avgScores = criteriaNames.map(criteria => {
      const scores = results.map(result => result.individual_scores?.[criteria] || 0)
      return scores.reduce((sum, score) => sum + score, 0) / scores.length
    })
    return { labels: criteriaNames, datasets: [{ data: avgScores, ... }] }
  }
  \<close>
  The colours of a dataset are presentation only and are left out. \<^verbatim>\<open>null\<close> is \<open>None\<close>.
\<close>

definition criteriaNames :: "score_result list \<Rightarrow> string list" where
  "criteriaNames results =
     (case results of
        [] \<Rightarrow> []
      | first # _ \<Rightarrow> (case individual_scores first of None \<Rightarrow> [] | Some scores \<Rightarrow> map fst scores))"

definition individual_score :: "score_result \<Rightarrow> string \<Rightarrow> rat" where
  "individual_score result criteria =
     num_or (case individual_scores result of None \<Rightarrow> None | Some scores \<Rightarrow> map_of scores criteria) 0"

record dataset =
  ds_label :: string
  ds_data :: "rat list"

record performance_chart =
  perf_labels :: "string list"
  perf_datasets :: "dataset list"

record radar_chart =
  radar_labels :: "string list"
  radar_data :: "rat option list"

definition getCriteriaPerformanceData :: "score_result list \<Rightarrow> performance_chart option" where
  "getCriteriaPerformanceData results =
     (if length results = 0 then None
      else Some \<lparr>perf_labels = map case_id results,
                 perf_datasets =
                   map (\<lambda>criteria. \<lparr>ds_label = criteria,
                                     ds_data = map (\<lambda>result. individual_score result criteria) results\<rparr>)
                       (criteriaNames results)\<rparr>)"

definition getRadarData :: "score_result list \<Rightarrow> radar_chart option" where
  "getRadarData results =
     (if length results = 0 then None
      else Some \<lparr>radar_labels = criteriaNames results,
                 radar_data =
                   map (\<lambda>criteria.
                          let scores = map (\<lambda>result. individual_score result criteria) results
                          in js_divide (foldl (\<lambda>sum score. sum + score) 0 scores)
                               (of_nat (length scores)))
                       (criteriaNames results)\<rparr>)"

section \<open>Sorting and the top performers\<close>

text \<open>
  \<^verbatim>\<open>Array.prototype.sort(compare)\<close> sorts the array in place and returns it; ECMAScript
  requires the sort to be stable. The model inserts the elements one by one, from the left,
  each behind every element that does not compare greater than it.
\<close>

fun insert_sorted :: "('a \<Rightarrow> 'a \<Rightarrow> rat) \<Rightarrow> 'a \<Rightarrow> 'a list \<Rightarrow> 'a list" where
  "insert_sorted compare x [] = [x]"
| "insert_sorted compare x (y # ys) =
     (if compare y x > 0 then x # y # ys else y # insert_sorted compare x ys)"

definition array_sort :: "('a \<Rightarrow> 'a \<Rightarrow> rat) \<Rightarrow> 'a list \<Rightarrow> 'a list" where
  "array_sort compare xs = foldl (\<lambda>acc x. insert_sorted compare x acc) [] xs"

text \<open>
  \<^verbatim>\<open>
  results
    .sort((a, b) => (b.percentage || 0) - (a.percentage || 0))
    .slice(0, 5)
    .map((result, index) => ...)
  \<close>
  \<^verbatim>\<open>results\<close> is the array of the analysis result itself, so the sort reorders it; the
  model returns the rows shown together with the array as the sort leaves it.
\<close>

definition byPercentageDesc :: "score_result \<Rightarrow> score_result \<Rightarrow> rat" where
  "byPercentageDesc a b = num_or (percentage b) 0 - num_or (percentage a) 0"

definition topPerformers :: "score_result list \<Rightarrow> score_result list \<times> score_result list" where
  "topPerformers results =
     (let sortedResults = array_sort byPercentageDesc results
      in (take 5 sortedResults, sortedResults))"

text \<open>
  One rendering of the component: the values computed in the function body, then the top
  performers of the overview tab. The second component is the \<^verbatim>\<open>results\<close> array afterwards.
\<close>

record dashboard_views =
  view_totalCases :: nat
  view_avgScore :: "rat option"
  view_statusPie :: "nat list"
  view_criteriaPerformance :: "performance_chart option"
  view_radar :: "radar_chart option"
  view_scoreDistribution :: "nat list"
  view_topPerformers :: "score_result list"

definition Dashboard :: "score_result list \<Rightarrow> dashboard_views \<times> score_result list" where
  "Dashboard results =
     (let total = totalCases results;
          avg = avgScore results;
          pie = statusPieData results;
          perf = getCriteriaPerformanceData results;
          radar = getRadarData results;
          dist = getScoreDistributionData results;
          (top, results') = topPerformers results
      in (\<lparr>view_totalCases = total, view_avgScore = avg, view_statusPie = pie,
           view_criteriaPerformance = perf, view_radar = radar,
           view_scoreDistribution = dist, view_topPerformers = top\<rparr>, results'))"

section \<open>Criteria: weight and ideal value\<close>

text \<open>
  \<^verbatim>\<open>
  const criteriaArray = Object.entries(criteriaSource).map(([name, criteriaData]) => {
    let idealValue = 'N/A';
    if (criteriaData.scoring_intervals && Array.isArray(criteriaData.scoring_intervals)) {
      // Find the interval with the highest score (usually score 10)
      const bestInterval = criteriaData.scoring_intervals
        .filter(interval => interval.score === 10)
        .sort((a, b) => b.score - a.score)[0];
      if (bestInterval) {
        idealValue = bestInterval.range || bestInterval.condition || 'Best performance';
      }
    }
    return { name, weight: criteriaData.weight || 1, idealValue,
             description: criteriaData.description || name };
  });
  \<close>
\<close>

definition comparison_bestInterval :: "criterion \<Rightarrow> scoring_interval option" where
  "comparison_bestInterval criteriaData =
     (case scoring_intervals criteriaData of
        None \<Rightarrow> None
      | Some intervals \<Rightarrow>
          (case array_sort (\<lambda>a b. iv_score b - iv_score a)
                  (filter (\<lambda>interval. iv_score interval = 10) intervals) of
             [] \<Rightarrow> None
           | bestInterval # _ \<Rightarrow> Some bestInterval))"

definition comparison_idealValue :: "criterion \<Rightarrow> string" where
  "comparison_idealValue criteriaData =
     (case comparison_bestInterval criteriaData of
        None \<Rightarrow> ''N/A''
      | Some bestInterval \<Rightarrow>
          str_or (iv_range bestInterval) (str_or (iv_condition bestInterval) ''Best performance''))"

record comparison_criterion =
  cc_name :: string
  cc_weight :: rat
  cc_idealValue :: string
  cc_description :: string

definition criteriaForComparison :: "(string \<times> criterion) list \<Rightarrow> comparison_criterion list" where
  "criteriaForComparison criteriaSource =
     map (\<lambda>(name, criteriaData).
            \<lparr>cc_name = name,
             cc_weight = num_or (weight criteriaData) 1,
             cc_idealValue = comparison_idealValue criteriaData,
             cc_description = str_or (description criteriaData) name\<rparr>)
         criteriaSource"

text \<open>
  The criteria tab:
  \<^verbatim>\<open>
  let idealValue = null
  if (criterion.scoring_intervals && criterion.scoring_intervals.length > 0) {
    const bestInterval = criterion.scoring_intervals.find(interval => interval.score === 10)
    if (bestInterval) {
      idealValue = bestInterval.interval
    } else {
      // Fallback to highest scoring interval
      const highestInterval = criterion.scoring_intervals.reduce((best, current) =>
        current.score > best.score ? current : best)
      idealValue = highestInterval.interval
    }
  }
  \<close>
  \<^verbatim>\<open>reduce\<close> without an initial value starts from the first element and throws on an
  empty array, which the guard excludes.
\<close>

fun reduce1 :: "('a \<Rightarrow> 'a \<Rightarrow> 'a) \<Rightarrow> 'a list \<Rightarrow> 'a option" where
  "reduce1 f [] = None"
| "reduce1 f (x # xs) = Some (foldl f x xs)"

definition tab_bestInterval :: "criterion \<Rightarrow> scoring_interval option" where
  "tab_bestInterval criterion =
     (case scoring_intervals criterion of
        None \<Rightarrow> None
      | Some intervals \<Rightarrow>
          (if length intervals > 0 then
             (case find (\<lambda>interval. iv_score interval = 10) intervals of
                Some bestInterval \<Rightarrow> Some bestInterval
              | None \<Rightarrow>
                  reduce1 (\<lambda>best current. if iv_score current > iv_score best then current else best)
                    intervals)
           else None))"

definition tab_idealValue :: "criterion \<Rightarrow> string option" where
  "tab_idealValue criterion =
     (case tab_bestInterval criterion of None \<Rightarrow> None | Some chosen \<Rightarrow> iv_interval chosen)"

section \<open>Resolving a criterion's value in a case\<close>

text \<open>
  \<^verbatim>\<open>String.prototype.toLowerCase\<close> folds letters by the Unicode case tables, which are not
  part of the source: the functions below take it as the parameter \<open>toLowerCase\<close>.
  \<open>ascii_toLowerCase\<close> folds the letters A to Z and keeps every other character; on a
  string of ASCII characters it is \<^verbatim>\<open>toLowerCase\<close>, and the example inputs use it.
  \<^verbatim>\<open>s.includes(t)\<close>: \<^verbatim>\<open>t\<close> occurs in \<^verbatim>\<open>s\<close> as a contiguous run.
\<close>

definition lower_char :: "char \<Rightarrow> char" where
  "lower_char c =
     (let n = (of_char c :: nat) in if 65 \<le> n \<and> n \<le> 90 then char_of (n + 32) else c)"

definition ascii_toLowerCase :: "string \<Rightarrow> string" where
  "ascii_toLowerCase s = map lower_char s"

fun str_includes :: "string \<Rightarrow> string \<Rightarrow> bool" where
  "str_includes [] t = (t = [])"
| "str_includes (c # s) t = (prefix t (c # s) \<or> str_includes s t)"

text \<open>
  \<^verbatim>\<open>caseData[name]\<close> answers with the object's own property of that name; failing that, with
  what the object inherits from \<^verbatim>\<open>Object.prototype\<close> under that name; failing that, with
  \<^verbatim>\<open>undefined\<close> (\<open>None\<close>). The names are those ECMAScript gives \<^verbatim>\<open>Object.prototype\<close>.
\<close>

definition object_prototype_names :: "string list" where
  "object_prototype_names =
     [''constructor'', ''hasOwnProperty'', ''isPrototypeOf'', ''propertyIsEnumerable'',
      ''toLocaleString'', ''toString'', ''valueOf'', ''__proto__'', ''__defineGetter__'',
      ''__defineSetter__'', ''__lookupGetter__'', ''__lookupSetter__'']"

definition get_property :: "(string \<times> jsval) list \<Rightarrow> string \<Rightarrow> jsval option" where
  "get_property obj name =
     (case map_of obj name of
        Some v \<Rightarrow> Some v
      | None \<Rightarrow> if name \<in> set object_prototype_names then Some (JInherited name) else None)"

text \<open>
  \<^verbatim>\<open>Object.entries(obj)\<close> lists the own properties whose key is an array index first, in
  ascending order of the index, and then the others in the order of their insertion. An
  array index is the decimal numeral, without sign or leading zero, of a number below
  \<open>2\<^sup>3\<^sup>2 - 1\<close>.
\<close>

definition is_digit :: "char \<Rightarrow> bool" where
  "is_digit c = (48 \<le> (of_char c :: nat) \<and> (of_char c :: nat) \<le> 57)"

definition decimal :: "string \<Rightarrow> nat" where
  "decimal s = foldl (\<lambda>n c. 10 * n + (of_char c - 48)) 0 s"

definition array_index :: "string \<Rightarrow> nat option" where
  "array_index key =
     (case key of
        [] \<Rightarrow> None
      | c # cs \<Rightarrow>
          if list_all is_digit key \<and> (c \<noteq> CHR ''0'' \<or> cs = []) \<and> decimal key < 4294967295
          then Some (decimal key) else None)"

definition object_entries :: "(string \<times> 'v) list \<Rightarrow> (string \<times> 'v) list" where
  "object_entries obj =
     sort_key (\<lambda>(k, v). case array_index k of Some i \<Rightarrow> i | None \<Rightarrow> 0)
       (filter (\<lambda>(k, v). array_index k \<noteq> None) obj)
     @ filter (\<lambda>(k, v). array_index k = None) obj"

text \<open>
  \<^verbatim>\<open>
  const caseData = result.case_data || {};
  let value = null;
  if (caseData[selectedCriteria] !== undefined) {
    value = caseData[selectedCriteria];
  } else {
    const lowerCriteria = selectedCriteria.toLowerCase();
    for (const [key, val] of Object.entries(caseData)) {
      if (key.toLowerCase() === lowerCriteria) { value = val; break; }
    }
    if (value === null) {
      for (const [key, val] of Object.entries(caseData)) {
        const keyLower = key.toLowerCase();
        if (keyLower.includes(lowerCriteria) || lowerCriteria.includes(keyLower)) {
          value = val; break;
        }
      }
    }
  }
  return { ..., value: value !== null ? value : 'N/A', ... }
  \<close>
  Each loop takes the entries left to scan and the current \<^verbatim>\<open>value\<close>; \<^verbatim>\<open>break\<close> returns.
\<close>

fun exact_loop ::
  "(string \<Rightarrow> string) \<Rightarrow> string \<Rightarrow> (string \<times> jsval) list \<Rightarrow> jsval \<Rightarrow> jsval" where
  "exact_loop toLowerCase lowerCriteria [] value = value"
| "exact_loop toLowerCase lowerCriteria ((key, val) # rest) value =
     (if toLowerCase key = lowerCriteria then val
      else exact_loop toLowerCase lowerCriteria rest value)"

fun fuzzy_loop ::
  "(string \<Rightarrow> string) \<Rightarrow> string \<Rightarrow> (string \<times> jsval) list \<Rightarrow> jsval \<Rightarrow> jsval" where
  "fuzzy_loop toLowerCase lowerCriteria [] value = value"
| "fuzzy_loop toLowerCase lowerCriteria ((key, val) # rest) value =
     (let keyLower = toLowerCase key in
      if str_includes keyLower lowerCriteria \<or> str_includes lowerCriteria keyLower then val
      else fuzzy_loop toLowerCase lowerCriteria rest value)"

definition resolve_value ::
  "(string \<Rightarrow> string) \<Rightarrow> string \<Rightarrow> (string \<times> jsval) list \<Rightarrow> jsval" where
  "resolve_value toLowerCase selectedCriteria caseData =
     (case get_property caseData selectedCriteria of
        Some v \<Rightarrow> v
      | None \<Rightarrow>
          (let lowerCriteria = toLowerCase selectedCriteria;
               value = exact_loop toLowerCase lowerCriteria (object_entries caseData) JNull
           in if value = JNull
              then fuzzy_loop toLowerCase lowerCriteria (object_entries caseData) value
              else value))"

definition comparison_value :: "(string \<Rightarrow> string) \<Rightarrow> string \<Rightarrow> score_result \<Rightarrow> jsval" where
  "comparison_value toLowerCase selectedCriteria result =
     (let caseData = (case case_data result of None \<Rightarrow> [] | Some d \<Rightarrow> d);
          value = resolve_value toLowerCase selectedCriteria caseData
      in if value \<noteq> JNull then value else JStr ''N/A'')"

text \<open>
  The resolver as the specification words it, over the metrics in the order given: exact
  key match, then case-insensitive exact match, then containment in either direction
  (compared without regard to case, as the scenario of \<open>Annual Revenue\<close> against \<open>revenue\<close>
  needs), each time the first metric in order; \<open>NotFound\<close> when all three fail.
\<close>

datatype resolved = NotFound | RawValue jsval

definition spec_resolve ::
  "(string \<Rightarrow> string) \<Rightarrow> (string \<times> jsval) list \<Rightarrow> string \<Rightarrow> resolved" where
  "spec_resolve toLowerCase caseMetrics criterionParameter =
     (case find (\<lambda>(k, v). k = criterionParameter) caseMetrics of
        Some (k, v) \<Rightarrow> RawValue v
      | None \<Rightarrow>
     (case find (\<lambda>(k, v). toLowerCase k = toLowerCase criterionParameter) caseMetrics of
        Some (k, v) \<Rightarrow> RawValue v
      | None \<Rightarrow>
     (case find (\<lambda>(k, v). sublist (toLowerCase k) (toLowerCase criterionParameter)
                          \<or> sublist (toLowerCase criterionParameter) (toLowerCase k)) caseMetrics of
        Some (k, v) \<Rightarrow> RawValue v
      | None \<Rightarrow> NotFound)))"

section \<open>Auxiliary definitions and example inputs\<close>

text \<open>The index of the counter that the chain of comparisons in the loop body increments.\<close>

definition bin_index :: "rat \<Rightarrow> nat" where
  "bin_index x =
     (if x \<le> 20 then 0 else if x \<le> 40 then 1 else if x \<le> 60 then 2
      else if x \<le> 80 then 3 else 4)"

text \<open>Two cases with percentages 85 and 55, in this input order.\<close>

definition result_85 :: score_result where
  "result_85 =
     \<lparr>case_id = ''Case B'', total_score = Some 85, max_possible_score = Some 100,
      percentage = Some 85, individual_scores = Some [(''Revenue'', 10), (''Profit'', 7)],
      eligibility_status = Some ''Eligible'', case_data = None\<rparr>"

definition result_55 :: score_result where
  "result_55 =
     \<lparr>case_id = ''Case A'', total_score = Some 55, max_possible_score = Some 100,
      percentage = Some 55, individual_scores = Some [(''Revenue'', 6), (''Debt'', 4)],
      eligibility_status = Some ''Not Eligible'', case_data = None\<rparr>"

text \<open>A result whose status is none of the three strings of the breakdown.\<close>

definition result_pending :: score_result where
  "result_pending =
     \<lparr>case_id = ''Case C'', total_score = Some 40, max_possible_score = Some 100,
      percentage = Some 40, individual_scores = None,
      eligibility_status = Some ''Pending'', case_data = None\<rparr>"

text \<open>A criterion whose weight is given as 0.\<close>

definition zero_weight_criterion :: criterion where
  "zero_weight_criterion =
     \<lparr>parameter = Some ''Revenue'', weight = Some 0, min_value = Some 100000, max_value = None,
      preferred_value = None, scoring_intervals = None, description = None\<rparr>"

text \<open>Six results with ties, for the ranking.\<close>

definition sample_result :: "string \<Rightarrow> rat \<Rightarrow> score_result" where
  "sample_result cid p =
     \<lparr>case_id = cid, total_score = Some p, max_possible_score = Some 100,
      percentage = Some p, individual_scores = None,
      eligibility_status = None, case_data = None\<rparr>"

definition six_results :: "score_result list" where
  "six_results =
     [sample_result ''A'' 50, sample_result ''B'' 90, sample_result ''C'' 50,
      sample_result ''D'' 70, sample_result ''E'' 90, sample_result ''F'' 10]"

text \<open>
  A case whose metrics name the revenue three ways, a case with a metric named by a year
  that was inserted last, and a criterion none of whose scoring intervals scores 10.
\<close>

definition revenue_case :: score_result where
  "revenue_case =
     \<lparr>case_id = ''Case D'', total_score = None, max_possible_score = None,
      percentage = None, individual_scores = None, eligibility_status = None,
      case_data = Some [(''Net Revenue Growth'', JNum 7), (''revenue'', JNum 150000),
                        (''Revenue'', JNum 3)]\<rparr>"

definition year_case :: score_result where
  "year_case =
     \<lparr>case_id = ''Case E'', total_score = None, max_possible_score = None,
      percentage = None, individual_scores = None, eligibility_status = None,
      case_data = Some [(''Revenue 2023'', JNum 5), (''2023'', JNum 9)]\<rparr>"

definition no_ten_criterion :: criterion where
  "no_ten_criterion =
     \<lparr>parameter = Some ''Revenue'', weight = Some 20, min_value = None, max_value = None,
      preferred_value = None,
      scoring_intervals = Some
        [\<lparr>iv_score = 2, iv_range = Some ''<50000'', iv_condition = None,
          iv_interval = Some ''<50000''\<rparr>,
         \<lparr>iv_score = 6, iv_range = Some ''50000-150000'', iv_condition = None,
          iv_interval = Some ''50000-150000''\<rparr>],
      description = None\<rparr>"

section \<open>Helper lemmas\<close>

lemma num_or_zero [simp]: "num_or None 0 = 0" "num_or (Some v) 0 = v"
  by (simp_all add: num_or_def)

lemma foldl_add_percentage:
  "foldl (\<lambda>sum result. sum + num_or (percentage result) 0) a rs
     = a + sum_list (map (\<lambda>r. num_or (percentage r) 0) rs)"
  by (induction rs arbitrary: a) (simp_all add: add.assoc)

text \<open>The quotient of \<open>avgScore\<close> taken without its guard, on the empty list.\<close>

lemma unguarded_average_empty:
  "js_divide (foldl (\<lambda>sum result. sum + num_or (percentage result) 0) 0 [])
     (of_nat (length ([] :: score_result list))) = None"
  by (simp add: js_divide_def)

lemma filter_cong_set:
  "(\<And>x. x \<in> set xs \<Longrightarrow> P x = Q x) \<Longrightarrow> filter P xs = filter Q xs"
  by (induction xs) auto

subsection \<open>The distribution loop\<close>

lemma sum_list_increment:
  "i < length d \<Longrightarrow> sum_list (increment d i) = Suc (sum_list d)"
  by (simp add: increment_def sum_list_update)

lemma length_increment [simp]: "length (increment d i) = length d"
  by (simp add: increment_def)

lemma distribution_step_eq:
  "distribution_step d r = increment d (bin_index (num_or (percentage r) 0))"
  by (simp add: distribution_step_def bin_index_def Let_def)

lemma bin_index_less: "bin_index x < 5"
  by (simp add: bin_index_def)

lemma foldl_step_length:
  "length (foldl distribution_step d rs) = length d"
  by (induction rs arbitrary: d) (simp_all add: distribution_step_eq)

lemma foldl_step_sum:
  "length d = 5 \<Longrightarrow> sum_list (foldl distribution_step d rs) = sum_list d + length rs"
proof (induction rs arbitrary: d)
  case Nil
  then show ?case by simp
next
  case (Cons r rs)
  have "sum_list (distribution_step d r) = Suc (sum_list d)"
    using Cons.prems bin_index_less[of "num_or (percentage r) 0"]
    by (simp add: distribution_step_eq sum_list_increment)
  moreover have "length (distribution_step d r) = 5"
    using Cons.prems by (simp add: distribution_step_eq)
  ultimately show ?case
    using Cons.IH[of "distribution_step d r"] by simp
qed

lemma foldl_step_nth:
  "length d = 5 \<Longrightarrow> k < 5 \<Longrightarrow>
   foldl distribution_step d rs ! k
     = d ! k + length (filter (\<lambda>r. bin_index (num_or (percentage r) 0) = k) rs)"
proof (induction rs arbitrary: d)
  case Nil
  then show ?case by simp
next
  case (Cons r rs)
  have len: "length (distribution_step d r) = 5"
    using Cons.prems by (simp add: distribution_step_eq)
  have "distribution_step d r ! k
          = d ! k + (if bin_index (num_or (percentage r) 0) = k then 1 else 0)"
    using Cons.prems bin_index_less[of "num_or (percentage r) 0"]
    by (simp add: distribution_step_eq increment_def nth_list_update)
  then show ?case
    using Cons.IH[OF len Cons.prems(2)] by simp
qed

lemma bin_index_spec:
  "0 \<le> x \<Longrightarrow> x \<le> 100 \<Longrightarrow> k < 5 \<Longrightarrow> bin_index x = k \<longleftrightarrow> spec_bin k x"
  by (auto simp: bin_index_def spec_bin_def)

lemma spec_bin_unique:
  assumes "0 \<le> x" "x \<le> 100"
  shows "\<exists>!k. k < 5 \<and> spec_bin k x"
proof -
  have "bin_index x < 5 \<and> spec_bin (bin_index x) x"
    using bin_index_spec[OF assms bin_index_less[of x]] bin_index_less[of x] by simp
  moreover have "\<And>k. k < 5 \<and> spec_bin k x \<Longrightarrow> k = bin_index x"
    using bin_index_spec[OF assms] by auto
  ultimately show ?thesis by blast
qed

text \<open>
  Outside the range of a percentage the chain of comparisons still picks a counter: a
  negative score goes to the first and a score above 100 to the last.
\<close>

lemma bin_index_out_of_range: "bin_index (-5) = 0" "bin_index 150 = 4"
  by (simp_all add: bin_index_def)

subsection \<open>Status counts\<close>

lemma bucket_counts:
  "approvedCount rs + reviewCount rs + rejectedCount rs
     = length (filter (\<lambda>r. eligibility_status r = Some ''Eligible''
                          \<or> eligibility_status r = Some ''Review Required''
                          \<or> eligibility_status r = Some ''Not Eligible'') rs)"
  by (induction rs) (auto simp: approvedCount_def reviewCount_def rejectedCount_def)

lemma length_filter_eq_length:
  "length (filter P xs) = length xs \<longleftrightarrow> (\<forall>x \<in> set xs. P x)"
  by (metis filter_True length_filter_less nat_less_le filter_id_conv)

subsection \<open>Per-parameter scores\<close>



subsection \<open>Weights\<close>

lemma effective_weight:
  "map cc_weight (criteriaForComparison [(name, c)])
     = [case weight c of None \<Rightarrow> 1 | Some w \<Rightarrow> if w = 0 then 1 else w]"
  by (simp add: criteriaForComparison_def num_or_def split: option.splits)

subsection \<open>The stable sort\<close>

lemma mset_insert_sorted: "mset (insert_sorted cmp x ys) = add_mset x (mset ys)"
  by (induction ys) simp_all

lemma set_insert_sorted: "set (insert_sorted cmp x ys) = insert x (set ys)"
  by (induction ys) auto

lemma mset_foldl_insert:
  "mset (foldl (\<lambda>acc x. insert_sorted cmp x acc) acc xs) = mset acc + mset xs"
  by (induction xs arbitrary: acc) (simp_all add: mset_insert_sorted)

lemma mset_array_sort: "mset (array_sort cmp xs) = mset xs"
  by (simp add: array_sort_def mset_foldl_insert)

lemma length_array_sort: "length (array_sort cmp xs) = length xs"
  using mset_array_sort[of cmp xs] by (metis size_mset)

lemma sorted_insert_sorted:
  assumes desc: "\<And>a b. (cmp a b > 0) = ((k a :: rat) < k b)"
    and "sorted_wrt (\<lambda>a b. k a \<ge> k b) ys"
  shows "sorted_wrt (\<lambda>a b. k a \<ge> k b) (insert_sorted cmp x ys)"
  using assms(2)
proof (induction ys)
  case Nil
  then show ?case by simp
next
  case (Cons y ys)
  show ?case
  proof (cases "cmp y x > 0")
    case True
    then have "k y < k x" by (simp add: desc)
    with Cons.prems True show ?thesis by fastforce
  next
    case False
    then have "k x \<le> k y" by (simp add: desc)
    with Cons False show ?thesis by (auto simp: set_insert_sorted)
  qed
qed

lemma sorted_foldl_insert:
  assumes desc: "\<And>a b. (cmp a b > 0) = ((k a :: rat) < k b)"
  shows "sorted_wrt (\<lambda>a b. k a \<ge> k b) acc \<Longrightarrow>
         sorted_wrt (\<lambda>a b. k a \<ge> k b) (foldl (\<lambda>acc x. insert_sorted cmp x acc) acc xs)"
  by (induction xs arbitrary: acc) (simp_all add: sorted_insert_sorted[OF desc])

lemma filter_insert_sorted:
  assumes desc: "\<And>a b. (cmp a b > 0) = ((k a :: rat) < k b)"
    and "sorted_wrt (\<lambda>a b. k a \<ge> k b) ys"
  shows "filter (\<lambda>z. k z = p) (insert_sorted cmp x ys)
           = filter (\<lambda>z. k z = p) ys @ (if k x = p then [x] else [])"
  using assms(2)
proof (induction ys)
  case Nil
  then show ?case by simp
next
  case (Cons y ys)
  show ?case
  proof (cases "cmp y x > 0")
    case True
    then have lt: "k y < k x" by (simp add: desc)
    have "\<forall>z \<in> set (y # ys). k z < k x"
      using Cons.prems lt by fastforce
    then have "k x = p \<Longrightarrow> filter (\<lambda>z. k z = p) (y # ys) = []"
      by (auto simp: filter_empty_conv)
    with True show ?thesis by auto
  next
    case False
    with Cons show ?thesis by auto
  qed
qed

lemma filter_foldl_insert:
  assumes desc: "\<And>a b. (cmp a b > 0) = ((k a :: rat) < k b)"
  shows "sorted_wrt (\<lambda>a b. k a \<ge> k b) acc \<Longrightarrow>
         filter (\<lambda>z. k z = p) (foldl (\<lambda>acc x. insert_sorted cmp x acc) acc xs)
           = filter (\<lambda>z. k z = p) acc @ filter (\<lambda>z. k z = p) xs"
proof (induction xs arbitrary: acc)
  case Nil
  then show ?case by simp
next
  case (Cons x xs)
  have "sorted_wrt (\<lambda>a b. k a \<ge> k b) (insert_sorted cmp x acc)"
    using Cons.prems by (rule sorted_insert_sorted[OF desc])
  from Cons.IH[OF this] show ?case
    using Cons.prems by (simp add: filter_insert_sorted[OF desc])
qed

lemma byPercentageDesc_pos:
  "(byPercentageDesc a b > 0) = (num_or (percentage a) 0 < num_or (percentage b) 0)"
  by (simp add: byPercentageDesc_def)

lemma sorted_by_percentage:
  "sorted_wrt (\<lambda>a b. num_or (percentage a) 0 \<ge> num_or (percentage b) 0)
     (array_sort byPercentageDesc rs)"
  unfolding array_sort_def
  by (rule sorted_foldl_insert[where k = "\<lambda>r. num_or (percentage r) 0"])
     (simp_all add: byPercentageDesc_pos)

lemma stable_by_percentage:
  "filter (\<lambda>r. num_or (percentage r) 0 = p) (array_sort byPercentageDesc rs)
     = filter (\<lambda>r. num_or (percentage r) 0 = p) rs"
  unfolding array_sort_def
  using filter_foldl_insert[where k = "\<lambda>r. num_or (percentage r) 0" and cmp = byPercentageDesc
      and acc = "[]" and xs = rs and p = p]
  by (simp add: byPercentageDesc_pos)

lemma Dashboard_top: "view_topPerformers (fst (Dashboard rs)) = take 5 (array_sort byPercentageDesc rs)"
  by (simp add: Dashboard_def topPerformers_def Let_def)

lemma Dashboard_results: "snd (Dashboard rs) = array_sort byPercentageDesc rs"
  by (simp add: Dashboard_def topPerformers_def Let_def)

lemma top_of_six:
  "view_topPerformers (fst (Dashboard six_results))
     = [sample_result ''B'' 90, sample_result ''E'' 90, sample_result ''D'' 70,
        sample_result ''A'' 50, sample_result ''C'' 50]"
  by (simp add: Dashboard_top six_results_def array_sort_def byPercentageDesc_def sample_result_def)

subsection \<open>Resolution loops\<close>

lemma str_includes_sublist: "str_includes s t \<longleftrightarrow> sublist t s"
proof (induction s)
  case Nil
  then show ?case by simp
next
  case (Cons c s)
  then show ?case by (cases t) (simp_all add: sublist_Cons_right)
qed

lemma map_of_find:
  "map_of cd key = (case find (\<lambda>(k, v). k = key) cd of Some (k, v) \<Rightarrow> Some v | None \<Rightarrow> None)"
  by (induction cd) auto

lemma exact_loop_find:
  "exact_loop lower lc cd value
     = (case find (\<lambda>(k, v). lower k = lc) cd of Some (k, v) \<Rightarrow> v | None \<Rightarrow> value)"
  by (induction lower lc cd "value" rule: exact_loop.induct) simp_all

lemma fuzzy_loop_find:
  "fuzzy_loop lower lc cd value
     = (case find (\<lambda>(k, v). sublist (lower k) lc \<or> sublist lc (lower k)) cd of
          Some (k, v) \<Rightarrow> v | None \<Rightarrow> value)"
  by (induction lower lc cd "value" rule: fuzzy_loop.induct)
     (auto simp: Let_def str_includes_sublist)

lemma find_Some_mem: "find P xs = Some x \<Longrightarrow> x \<in> set xs"
  by (induction xs) (auto split: if_splits)

lemma spec_resolve_mem:
  "spec_resolve lower entries sel = RawValue v \<Longrightarrow> \<exists>k. (k, v) \<in> set entries"
  by (auto simp: spec_resolve_def split: option.splits dest: find_Some_mem)

lemma loops_spec:
  assumes "\<forall>(k, v) \<in> set entries. v \<noteq> JNull"
    and "map_of entries sel = None"
  shows "(let lowerCriteria = lower sel;
              value = exact_loop lower lowerCriteria entries JNull
          in if value = JNull then fuzzy_loop lower lowerCriteria entries value else value)
         = (case spec_resolve lower entries sel of RawValue v \<Rightarrow> v | NotFound \<Rightarrow> JNull)"
proof -
  have exact: "find (\<lambda>(k, v). k = sel) entries = None"
  proof (cases "find (\<lambda>(k, v). k = sel) entries")
    case None
    then show ?thesis .
  next
    case (Some kv)
    with assms(2) show ?thesis
      by (cases kv) (simp add: map_of_find)
  qed
  show ?thesis
  proof (cases "find (\<lambda>(k, v). lower k = lower sel) entries")
    case (Some kv)
    obtain k v where kv: "kv = (k, v)" by (cases kv)
    from find_Some_mem[OF Some] assms(1) kv have "v \<noteq> JNull" by auto
    with exact Some kv show ?thesis
      by (simp add: spec_resolve_def exact_loop_find Let_def)
  next
    case None
    with exact show ?thesis
      by (auto simp: spec_resolve_def exact_loop_find fuzzy_loop_find Let_def
          split: option.splits)
  qed
qed

subsection \<open>Enumeration of an object\<close>

lemma set_object_entries [simp]: "set (object_entries obj) = set obj"
  by (auto simp: object_entries_def)

lemma mset_object_entries: "mset (object_entries obj) = mset obj"
  by (simp add: object_entries_def)

lemma distinct_object_entries:
  "distinct (map fst obj) \<Longrightarrow> distinct (map fst (object_entries obj))"
proof -
  have "mset (map fst (object_entries obj)) = mset (map fst obj)"
    by (simp add: mset_object_entries)
  then show "distinct (map fst obj) \<Longrightarrow> distinct (map fst (object_entries obj))"
    by (metis mset_eq_imp_distinct_iff)
qed

lemma map_of_object_entries:
  assumes "distinct (map fst obj)"
  shows "map_of (object_entries obj) key = map_of obj key"
proof (cases "map_of obj key")
  case None
  then have "key \<notin> fst ` set (object_entries obj)"
    by (simp add: map_of_eq_None_iff)
  then have "map_of (object_entries obj) key = None"
    by (simp add: map_of_eq_None_iff)
  with None show ?thesis by simp
next
  case (Some v)
  then have "(key, v) \<in> set (object_entries obj)"
    by (simp add: map_of_SomeD)
  with distinct_object_entries[OF assms] Some show ?thesis
    by simp
qed

lemma object_entries_names:
  "\<forall>(k, v) \<in> set obj. array_index k = None \<Longrightarrow> object_entries obj = obj"
proof -
  assume a: "\<forall>(k, v) \<in> set obj. array_index k = None"
  then have "filter (\<lambda>(k, v). array_index k \<noteq> None) obj = []"
    by (auto simp: filter_empty_conv)
  moreover from a have "filter (\<lambda>(k, v). array_index k = None) obj = obj"
    by (auto simp: filter_id_conv)
  ultimately show ?thesis
    by (simp add: object_entries_def)
qed

lemma resolve_value_spec:
  assumes "distinct (map fst cd)"
    and "\<forall>(k, v) \<in> set cd. v \<noteq> JNull"
    and "sel \<notin> set object_prototype_names"
  shows "resolve_value lower sel cd
     = (case spec_resolve lower (object_entries cd) sel of RawValue v \<Rightarrow> v | NotFound \<Rightarrow> JNull)"
proof (cases "map_of cd sel")
  case (Some v)
  then have "map_of (object_entries cd) sel = Some v"
    by (simp add: map_of_object_entries[OF assms(1)])
  then have "spec_resolve lower (object_entries cd) sel = RawValue v"
    by (auto simp: spec_resolve_def map_of_find split: option.splits)
  with Some show ?thesis
    by (simp add: resolve_value_def get_property_def)
next
  case None
  then have none: "map_of (object_entries cd) sel = None"
    by (simp add: map_of_object_entries[OF assms(1)])
  from assms(2) have nonnull: "\<forall>(k, v) \<in> set (object_entries cd). v \<noteq> JNull"
    by simp
  from None assms(3) have "get_property cd sel = None"
    by (simp add: get_property_def)
  then show ?thesis
    using loops_spec[OF nonnull none, of lower]
    by (simp add: resolve_value_def)
qed

text \<open>
  A \<^verbatim>\<open>null\<close> value is outside the data model (a raw value is a number or a string). The
  code treats it as no match yet: after a case-insensitive match whose value is \<^verbatim>\<open>null\<close>
  the containment scan still runs and may pick an earlier key.
\<close>

lemma null_case_insensitive_match:
  "resolve_value ascii_toLowerCase ''Revenue'' [(''Rev'', JNum 5), (''REVENUE'', JNull)] = JNum 5"
proof -
  have lower: "ascii_toLowerCase ''Revenue'' = ''revenue''"
    "ascii_toLowerCase ''Rev'' = ''rev''"
    "ascii_toLowerCase ''REVENUE'' = ''revenue''"
    by code_simp+
  have names: "array_index ''Rev'' = None" "array_index ''REVENUE'' = None"
    by (simp_all add: array_index_def is_digit_def decimal_def)
  have entries: "object_entries [(''Rev'', JNum 5), (''REVENUE'', JNull)]
      = [(''Rev'', JNum 5), (''REVENUE'', JNull)]"
    by (rule object_entries_names) (simp add: names)
  show ?thesis
    by (simp add: resolve_value_def get_property_def object_prototype_names_def entries
        lower Let_def)
qed

text \<open>
  A criterion named like a property of \<^verbatim>\<open>Object.prototype\<close> that the case does not hold
  resolves to the inherited property, whatever the metrics are.
\<close>

lemma inherited_name:
  "resolve_value lower ''constructor'' [(''Constructor'', JNum 1)] = JInherited ''constructor''"
  by (simp add: resolve_value_def get_property_def object_prototype_names_def)

subsection \<open>Ideal value\<close>

lemma insert_sorted_last:
  "\<forall>y \<in> set ys. \<not> cmp y x > 0 \<Longrightarrow> insert_sorted cmp x ys = ys @ [x]"
  by (induction ys) simp_all

lemma foldl_insert_ties:
  "\<forall>a \<in> set (acc @ xs). \<forall>b \<in> set (acc @ xs). \<not> cmp a b > 0 \<Longrightarrow>
   foldl (\<lambda>acc x. insert_sorted cmp x acc) acc xs = acc @ xs"
proof (induction xs arbitrary: acc)
  case Nil
  then show ?case by simp
next
  case (Cons x xs)
  have "insert_sorted cmp x acc = acc @ [x]"
    using Cons.prems by (intro insert_sorted_last) simp
  moreover have "foldl (\<lambda>acc x. insert_sorted cmp x acc) (acc @ [x]) xs = (acc @ [x]) @ xs"
    using Cons.prems by (intro Cons.IH) simp
  ultimately show ?case by simp
qed

lemma first_of_filter:
  "(case filter P xs of [] \<Rightarrow> None | x # _ \<Rightarrow> Some x) = find P xs"
  by (induction xs) simp_all

lemma comparison_bestInterval_find:
  "comparison_bestInterval c =
     (case scoring_intervals c of
        None \<Rightarrow> None
      | Some intervals \<Rightarrow> find (\<lambda>interval. iv_score interval = 10) intervals)"
proof (cases "scoring_intervals c")
  case None
  then show ?thesis by (simp add: comparison_bestInterval_def)
next
  case (Some intervals)
  have "array_sort (\<lambda>a b. iv_score b - iv_score a)
          (filter (\<lambda>interval. iv_score interval = 10) intervals)
        = filter (\<lambda>interval. iv_score interval = 10) intervals"
    unfolding array_sort_def
    using foldl_insert_ties[of "[]" "filter (\<lambda>interval. iv_score interval = 10) intervals"
        "\<lambda>a b. iv_score b - iv_score a"]
    by simp
  with Some show ?thesis
    by (simp add: comparison_bestInterval_def first_of_filter)
qed

lemma foldl_best:
  "foldl (\<lambda>best current. if iv_score current > iv_score best then current else best) b xs
     \<in> set (b # xs)
   \<and> (\<forall>i \<in> set (b # xs).
         iv_score i \<le> iv_score
           (foldl (\<lambda>best current. if iv_score current > iv_score best then current else best) b xs))"
proof (induction xs arbitrary: b)
  case Nil
  then show ?case by simp
next
  case (Cons x xs)
  show ?case
    using Cons.IH[of "if iv_score x > iv_score b then x else b"]
    by (auto split: if_splits intro: order_trans less_imp_le)
qed

lemma tab_bestInterval_spec:
  assumes "scoring_intervals c = Some intervals" and "intervals \<noteq> []"
  shows "case find (\<lambda>interval. iv_score interval = 10) intervals of
           Some first_ten \<Rightarrow> tab_bestInterval c = Some first_ten
         | None \<Rightarrow> (\<exists>highest. tab_bestInterval c = Some highest \<and> highest \<in> set intervals
                      \<and> (\<forall>i \<in> set intervals. iv_score i \<le> iv_score highest))"
proof (cases "find (\<lambda>interval. iv_score interval = 10) intervals")
  case (Some a)
  with assms show ?thesis by (simp add: tab_bestInterval_def)
next
  case None
  from assms(2) obtain b xs where iv: "intervals = b # xs" by (cases intervals) auto
  from foldl_best[of b xs] None assms(1) iv show ?thesis
    by (simp add: tab_bestInterval_def)
qed

section \<open>Claims\<close>

text \<open>
  C1. For every list of score results whose percentages lie in \<open>[0,100]\<close>, the counter at
  position \<open>k\<close> of the score distribution is the number of results whose percentage lies in
  the \<open>k\<close>-th of the bins \<open>[0,20]\<close>, \<open>(20,40]\<close>, \<open>(40,60]\<close>, \<open>(60,80]\<close>, \<open>(80,100]\<close>, and each
  percentage lies in exactly one of them. For every list of results at all, there are five
  counters and they sum to the number of results.
\<close>

theorem score_distribution_bins:
  "length (getScoreDistributionData rs) = 5
   \<and> sum_list (getScoreDistributionData rs) = totalCases rs
   \<and> ((\<forall>r \<in> set rs. 0 \<le> num_or (percentage r) 0 \<and> num_or (percentage r) 0 \<le> 100) \<longrightarrow>
        (\<forall>k < 5. getScoreDistributionData rs ! k
                    = length (filter (\<lambda>r. spec_bin k (num_or (percentage r) 0)) rs))
        \<and> (\<forall>r \<in> set rs. \<exists>!k. k < 5 \<and> spec_bin k (num_or (percentage r) 0)))"
proof (intro conjI impI allI ballI)
  show "length (getScoreDistributionData rs) = 5"
    by (simp add: getScoreDistributionData_def foldl_step_length)
  show "sum_list (getScoreDistributionData rs) = totalCases rs"
    by (simp add: getScoreDistributionData_def foldl_step_sum totalCases_def)
next
  fix k :: nat
  assume range: "\<forall>r \<in> set rs. 0 \<le> num_or (percentage r) 0 \<and> num_or (percentage r) 0 \<le> 100"
    and k: "k < 5"
  have "filter (\<lambda>r. bin_index (num_or (percentage r) 0) = k) rs
          = filter (\<lambda>r. spec_bin k (num_or (percentage r) 0)) rs"
    using range k by (intro filter_cong_set) (simp add: bin_index_spec)
  moreover have "[0, 0, 0, 0, 0::nat] ! k = 0"
    using k by (simp add: nth_Cons split: nat.split)
  ultimately show "getScoreDistributionData rs ! k
      = length (filter (\<lambda>r. spec_bin k (num_or (percentage r) 0)) rs)"
    using foldl_step_nth[of "[0, 0, 0, 0, 0]" k rs] k
    by (simp add: getScoreDistributionData_def)
next
  fix r
  assume "\<forall>r \<in> set rs. 0 \<le> num_or (percentage r) 0 \<and> num_or (percentage r) 0 \<le> 100"
    and "r \<in> set rs"
  then show "\<exists>!k. k < 5 \<and> spec_bin k (num_or (percentage r) 0)"
    by (simp add: spec_bin_unique)
qed

theorem score_distribution_bins_witness:
  "0 \<le> num_or (percentage result_85) 0 \<and> num_or (percentage result_85) 0 \<le> 100
   \<and> 0 \<le> num_or (percentage result_55) 0 \<and> num_or (percentage result_55) 0 \<le> 100
   \<and> getScoreDistributionData [result_85, result_55] = [0, 0, 1, 0, 1]
   \<and> sum_list (getScoreDistributionData [result_85, result_55])
        = totalCases [result_85, result_55]
   \<and> getScoreDistributionData [result_85, result_55] ! 4
        = length (filter (\<lambda>r. spec_bin 4 (num_or (percentage r) 0)) [result_85, result_55])"
proof -
  have h: "\<forall>r \<in> set [result_85, result_55].
             0 \<le> num_or (percentage r) 0 \<and> num_or (percentage r) 0 \<le> 100"
    by (simp add: result_85_def result_55_def)
  have e: "getScoreDistributionData [result_85, result_55] = [0, 0, 1, 0, 1]"
    by (simp add: getScoreDistributionData_def distribution_step_def increment_def
        result_85_def result_55_def)
  from score_distribution_bins[of "[result_85, result_55]"] h
  have "sum_list (getScoreDistributionData [result_85, result_55])
          = totalCases [result_85, result_55]"
    and "getScoreDistributionData [result_85, result_55] ! 4
          = length (filter (\<lambda>r. spec_bin 4 (num_or (percentage r) 0)) [result_85, result_55])"
    by simp_all
  with h e show ?thesis by simp
qed

text \<open>
  C2. For every list of score results, the top performers are the first five entries of the
  results sorted by percentage in descending order, where results of equal percentage keep
  their original order; so the view has \<open>min 5 total_cases\<close> entries.
\<close>

theorem top_performers_sorted:
  "\<exists>sorted.
      mset sorted = mset rs
    \<and> sorted_wrt (\<lambda>a b. num_or (percentage a) 0 \<ge> num_or (percentage b) 0) sorted
    \<and> (\<forall>p. filter (\<lambda>r. num_or (percentage r) 0 = p) sorted
              = filter (\<lambda>r. num_or (percentage r) 0 = p) rs)
    \<and> view_topPerformers (fst (Dashboard rs)) = take 5 sorted
    \<and> length (view_topPerformers (fst (Dashboard rs))) = min 5 (totalCases rs)"
proof (intro exI[of _ "array_sort byPercentageDesc rs"] conjI allI)
  show "mset (array_sort byPercentageDesc rs) = mset rs"
    by (rule mset_array_sort)
  show "sorted_wrt (\<lambda>a b. num_or (percentage a) 0 \<ge> num_or (percentage b) 0)
          (array_sort byPercentageDesc rs)"
    by (rule sorted_by_percentage)
  show "filter (\<lambda>r. num_or (percentage r) 0 = p) (array_sort byPercentageDesc rs)
          = filter (\<lambda>r. num_or (percentage r) 0 = p) rs" for p
    by (rule stable_by_percentage)
  show "view_topPerformers (fst (Dashboard rs)) = take 5 (array_sort byPercentageDesc rs)"
    by (rule Dashboard_top)
  show "length (view_topPerformers (fst (Dashboard rs))) = min 5 (totalCases rs)"
    by (simp add: Dashboard_top length_array_sort totalCases_def min.commute)
qed

theorem top_performers_sorted_witness:
  "view_topPerformers (fst (Dashboard six_results))
     = [sample_result ''B'' 90, sample_result ''E'' 90, sample_result ''D'' 70,
        sample_result ''A'' 50, sample_result ''C'' 50]
   \<and> length (view_topPerformers (fst (Dashboard six_results))) = min 5 (totalCases six_results)"
  using top_performers_sorted[of six_results] top_of_six
  by auto

text \<open>
  C3 (at the input where the code departs from it). Rendering the dashboard for the results
  with percentages 55 and 85, in this order, leaves the \<open>results\<close> array in the order 85, 55:
  the sort of the top performers works on the array of the analysis result itself.
\<close>

theorem reorders_results:
  "snd (Dashboard [result_55, result_85]) = [result_85, result_55]
   \<and> snd (Dashboard [result_55, result_85]) \<noteq> [result_55, result_85]"
  by (simp add: Dashboard_results array_sort_def byPercentageDesc_def result_55_def result_85_def)

text \<open>
  C4, as stated, fails: the scan is over \<^verbatim>\<open>Object.entries\<close>, which puts a key that is an
  array index before the keys inserted earlier. For the metrics \<open>Revenue 2023\<close> (5) and
  \<open>2023\<close> (9), inserted in this order, and the criterion \<open>Revenue 2023 (audited)\<close>, the
  first hit in insertion order is 5; the code answers 9.
\<close>

theorem insertion_order_counterexample:
  "case_data year_case = Some [(''Revenue 2023'', JNum 5), (''2023'', JNum 9)]
   \<and> comparison_value ascii_toLowerCase ''Revenue 2023 (audited)'' year_case = JNum 9
   \<and> spec_resolve ascii_toLowerCase [(''Revenue 2023'', JNum 5), (''2023'', JNum 9)]
         ''Revenue 2023 (audited)'' = RawValue (JNum 5)
   \<and> comparison_value ascii_toLowerCase ''Revenue 2023 (audited)'' year_case
       \<noteq> (case spec_resolve ascii_toLowerCase [(''Revenue 2023'', JNum 5), (''2023'', JNum 9)]
                  ''Revenue 2023 (audited)'' of
            RawValue v \<Rightarrow> v
          | NotFound \<Rightarrow> JStr ''N/A'')"
proof -
  have lower: "ascii_toLowerCase ''Revenue 2023 (audited)'' = ''revenue 2023 (audited)''"
    "ascii_toLowerCase ''Revenue 2023'' = ''revenue 2023''"
    "ascii_toLowerCase ''2023'' = ''2023''"
    by code_simp+
  have index: "array_index ''Revenue 2023'' = None" "array_index ''2023'' = Some 2023"
    by (simp_all add: array_index_def is_digit_def decimal_def)
  have entries: "object_entries [(''Revenue 2023'', JNum 5), (''2023'', JNum 9)]
      = [(''2023'', JNum 9), (''Revenue 2023'', JNum 5)]"
    by (simp add: object_entries_def index)
  have code: "comparison_value ascii_toLowerCase ''Revenue 2023 (audited)'' year_case = JNum 9"
    by (simp add: comparison_value_def resolve_value_def get_property_def
        object_prototype_names_def year_case_def entries lower Let_def sublist_code)
  have spec: "spec_resolve ascii_toLowerCase [(''Revenue 2023'', JNum 5), (''2023'', JNum 9)]
         ''Revenue 2023 (audited)'' = RawValue (JNum 5)"
    by (simp add: spec_resolve_def lower sublist_code)
  from code spec show ?thesis
    by (simp add: year_case_def)
qed

text \<open>
  C4, amended. For every case whose metric values are numbers or strings, and every
  criterion name that is not a property name of \<^verbatim>\<open>Object.prototype\<close>, the value shown by the
  comparison is resolved by the first of these that succeeds: the metric with exactly that
  key; the first metric whose key equals the name up to case; the first metric whose key
  contains the name or is contained in it (up to case). It is \<open>N/A\<close> when none succeeds.
  The metrics are scanned in the order of \<^verbatim>\<open>Object.entries\<close>: keys that are array indices
  first, in ascending order, then the other keys in insertion order; this is the insertion
  order when no key is an array index. In particular \<open>Annual Revenue\<close> against a metric
  \<open>revenue\<close> resolves to that metric's value.
\<close>

theorem resolution_precedence_entries:
  assumes "case_data result = Some caseData"
    and "distinct (map fst caseData)"
    and "\<forall>(k, v) \<in> set caseData. v \<noteq> JNull"
    and "selectedCriteria \<notin> set object_prototype_names"
  shows "comparison_value toLowerCase selectedCriteria result
           = (case spec_resolve toLowerCase (object_entries caseData) selectedCriteria of
                RawValue v \<Rightarrow> v
              | NotFound \<Rightarrow> JStr ''N/A'')
         \<and> ((\<forall>(k, v) \<in> set caseData. array_index k = None) \<longrightarrow>
              object_entries caseData = caseData)"
proof (intro conjI impI)
  have "\<And>v. spec_resolve toLowerCase (object_entries caseData) selectedCriteria = RawValue v
          \<Longrightarrow> v \<noteq> JNull"
  proof -
    fix v
    assume "spec_resolve toLowerCase (object_entries caseData) selectedCriteria = RawValue v"
    then have "\<exists>k. (k, v) \<in> set (object_entries caseData)"
      by (rule spec_resolve_mem)
    with assms(3) show "v \<noteq> JNull" by auto
  qed
  then show "comparison_value toLowerCase selectedCriteria result
           = (case spec_resolve toLowerCase (object_entries caseData) selectedCriteria of
                RawValue v \<Rightarrow> v
              | NotFound \<Rightarrow> JStr ''N/A'')"
    using assms(1) resolve_value_spec[OF assms(2) assms(3) assms(4), of toLowerCase]
    by (simp add: comparison_value_def split: resolved.splits)
next
  assume "\<forall>(k, v) \<in> set caseData. array_index k = None"
  then show "object_entries caseData = caseData"
    by (rule object_entries_names)
qed

theorem resolution_precedence_entries_witness:
  "case_data revenue_case
      = Some [(''Net Revenue Growth'', JNum 7), (''revenue'', JNum 150000), (''Revenue'', JNum 3)]
   \<and> distinct (map fst [(''Net Revenue Growth'', JNum 7), (''revenue'', JNum 150000),
                         (''Revenue'', JNum 3)])
   \<and> ''Annual Revenue'' \<notin> set object_prototype_names
   \<and> object_entries [(''Net Revenue Growth'', JNum 7), (''revenue'', JNum 150000),
                      (''Revenue'', JNum 3)]
       = [(''Net Revenue Growth'', JNum 7), (''revenue'', JNum 150000), (''Revenue'', JNum 3)]
   \<and> comparison_value ascii_toLowerCase ''Annual Revenue'' revenue_case = JNum 150000
   \<and> comparison_value ascii_toLowerCase ''Annual Revenue'' revenue_case \<noteq> JStr ''N/A''"
proof -
  have cd: "case_data revenue_case
      = Some [(''Net Revenue Growth'', JNum 7), (''revenue'', JNum 150000), (''Revenue'', JNum 3)]"
    by (simp add: revenue_case_def)
  have keys: "distinct (map fst [(''Net Revenue Growth'', JNum 7), (''revenue'', JNum 150000),
      (''Revenue'', JNum 3)])"
    by simp
  have nonnull: "\<forall>(k, v) \<in> set [(''Net Revenue Growth'', JNum 7), (''revenue'', JNum 150000),
      (''Revenue'', JNum 3)]. v \<noteq> JNull"
    by simp
  have name: "''Annual Revenue'' \<notin> set object_prototype_names"
    by (simp add: object_prototype_names_def)
  have index: "array_index ''Net Revenue Growth'' = None" "array_index ''revenue'' = None"
    "array_index ''Revenue'' = None"
    by (simp_all add: array_index_def is_digit_def decimal_def)
  then have names: "\<forall>(k, v) \<in> set [(''Net Revenue Growth'', JNum 7), (''revenue'', JNum 150000),
      (''Revenue'', JNum 3)]. array_index k = None"
    by simp
  have lower: "ascii_toLowerCase ''Annual Revenue'' = ''annual revenue''"
    "ascii_toLowerCase ''Net Revenue Growth'' = ''net revenue growth''"
    "ascii_toLowerCase ''revenue'' = ''revenue''"
    "ascii_toLowerCase ''Revenue'' = ''revenue''"
    by code_simp+
  have spec: "spec_resolve ascii_toLowerCase [(''Net Revenue Growth'', JNum 7),
      (''revenue'', JNum 150000), (''Revenue'', JNum 3)] ''Annual Revenue''
      = RawValue (JNum 150000)"
    by (simp add: spec_resolve_def lower sublist_code)
  note inst = resolution_precedence_entries[OF cd keys nonnull name, of ascii_toLowerCase]
  from inst names have entries: "object_entries [(''Net Revenue Growth'', JNum 7),
      (''revenue'', JNum 150000), (''Revenue'', JNum 3)]
       = [(''Net Revenue Growth'', JNum 7), (''revenue'', JNum 150000), (''Revenue'', JNum 3)]"
    by blast
  from inst entries spec
  have "comparison_value ascii_toLowerCase ''Annual Revenue'' revenue_case = JNum 150000"
    by simp
  with cd keys name entries show ?thesis
    by simp
qed

text \<open>
  C5 (at the input where the code departs from it). For a criterion with the intervals
  \<open><50000\<close> (score 2) and \<open>50000-150000\<close> (score 6), \<open>criteriaForComparison\<close> leaves the
  ideal value at \<open>N/A\<close>: it keeps only intervals scoring exactly 10 and has no fallback. The
  criteria tab shows the highest-scoring interval for the same criterion.
\<close>

theorem ideal_value_without_ten:
  "comparison_idealValue no_ten_criterion = ''N/A''
   \<and> tab_idealValue no_ten_criterion = Some ''50000-150000''"
  by (simp add: comparison_idealValue_def comparison_bestInterval_def array_sort_def
      tab_idealValue_def tab_bestInterval_def no_ten_criterion_def)

text \<open>
  C6. For every list of score results, the average score is a number: the arithmetic mean
  of the results' percentages for a non-empty list, and 0 for the empty list. The division
  is never by zero; without the guard the empty list would give no number
  (\<open>unguarded_average_empty\<close>).
\<close>

theorem avgScore_mean:
  "avgScore rs
     = (if rs = [] then Some 0
        else Some (sum_list (map (\<lambda>r. num_or (percentage r) 0) rs) / of_nat (length rs)))"
  by (simp add: avgScore_def js_divide_def foldl_add_percentage)

theorem avgScore_mean_witness:
  "avgScore [] = Some 0 \<and> avgScore [result_85, result_55] = Some 70"
  using avgScore_mean[of "[]"] avgScore_mean[of "[result_85, result_55]"]
  by (simp add: result_85_def result_55_def)



text \<open>
  C8 (at the input where the code departs from it). A criterion whose weight is present and
  equal to 0 gets the effective weight 1 in \<open>criteriaForComparison\<close>, not the given weight:
  \<^verbatim>\<open>criteriaData.weight || 1\<close> replaces every falsy weight.
\<close>

theorem zero_weight_replaced:
  "map cc_weight (criteriaForComparison [(''Revenue'', zero_weight_criterion)]) = [1]
   \<and> weight zero_weight_criterion = Some 0"
  by (simp add: criteriaForComparison_def num_or_def zero_weight_criterion_def)

text \<open>
  C9. With no results both per-parameter views are \<open>null\<close>. Otherwise both are produced and
  their parameters are the keys of the first result's \<open>individual_scores\<close>, in that order
  (none when the first result has no \<open>individual_scores\<close>); the keys of later results play
  no part.
\<close>

theorem parameter_views_first_result:
  "getRadarData [] = None \<and> getCriteriaPerformanceData [] = None
   \<and> (\<exists>radar perf.
         getRadarData (first # rest) = Some radar
         \<and> getCriteriaPerformanceData (first # rest) = Some perf
         \<and> radar_labels radar
             = (case individual_scores first of None \<Rightarrow> [] | Some scores \<Rightarrow> map fst scores)
         \<and> map ds_label (perf_datasets perf)
             = (case individual_scores first of None \<Rightarrow> [] | Some scores \<Rightarrow> map fst scores))"
  by (simp add: getRadarData_def getCriteriaPerformanceData_def criteriaNames_def comp_def)

theorem parameter_views_first_result_witness:
  "(\<exists>radar perf.
      getRadarData [result_85, result_55] = Some radar
      \<and> getCriteriaPerformanceData [result_85, result_55] = Some perf
      \<and> radar_labels radar = [''Revenue'', ''Profit'']
      \<and> map ds_label (perf_datasets perf) = [''Revenue'', ''Profit''])
   \<and> map_of (the (individual_scores result_55)) ''Debt'' = Some 4
   \<and> ''Debt'' \<notin> set [''Revenue'', ''Profit'']"
  using parameter_views_first_result[of result_85 "[result_55]"]
  by (simp add: result_85_def result_55_def)

text \<open>
  C10. Every result is counted in at most one of the three buckets Eligible, Review
  Required and Not Eligible; the three counts together are the number of results whose
  status is one of these strings, so they sum to the total number of cases exactly when every
  status is one of them; a result with any other status changes no bucket but is counted in
  the total and enters the average score.
\<close>

theorem eligibility_buckets:
  "approvedCount [r] + reviewCount [r] + rejectedCount [r] \<le> 1
   \<and> approvedCount rs + reviewCount rs + rejectedCount rs
        = length (filter (\<lambda>r. eligibility_status r = Some ''Eligible''
                             \<or> eligibility_status r = Some ''Review Required''
                             \<or> eligibility_status r = Some ''Not Eligible'') rs)
   \<and> (approvedCount rs + reviewCount rs + rejectedCount rs = totalCases rs
        \<longleftrightarrow> (\<forall>r \<in> set rs. eligibility_status r = Some ''Eligible''
                             \<or> eligibility_status r = Some ''Review Required''
                             \<or> eligibility_status r = Some ''Not Eligible''))
   \<and> (eligibility_status r \<noteq> Some ''Eligible''
        \<and> eligibility_status r \<noteq> Some ''Review Required''
        \<and> eligibility_status r \<noteq> Some ''Not Eligible'' \<longrightarrow>
        statusPieData (xs @ r # ys) = statusPieData (xs @ ys)
        \<and> totalCases (xs @ r # ys) = Suc (totalCases (xs @ ys))
        \<and> avgScore (xs @ r # ys)
            = Some ((sum_list (map (\<lambda>r. num_or (percentage r) 0) (xs @ ys))
                       + num_or (percentage r) 0)
                    / of_nat (Suc (length (xs @ ys)))))"
proof (intro conjI impI)
  show "approvedCount [r] + reviewCount [r] + rejectedCount [r] \<le> 1"
    by (simp add: approvedCount_def reviewCount_def rejectedCount_def)
  show "approvedCount rs + reviewCount rs + rejectedCount rs
        = length (filter (\<lambda>r. eligibility_status r = Some ''Eligible''
                             \<or> eligibility_status r = Some ''Review Required''
                             \<or> eligibility_status r = Some ''Not Eligible'') rs)"
    by (rule bucket_counts)
  show "approvedCount rs + reviewCount rs + rejectedCount rs = totalCases rs
        \<longleftrightarrow> (\<forall>r \<in> set rs. eligibility_status r = Some ''Eligible''
                             \<or> eligibility_status r = Some ''Review Required''
                             \<or> eligibility_status r = Some ''Not Eligible'')"
    unfolding bucket_counts totalCases_def by (rule length_filter_eq_length)
next
  assume other: "eligibility_status r \<noteq> Some ''Eligible''
        \<and> eligibility_status r \<noteq> Some ''Review Required''
        \<and> eligibility_status r \<noteq> Some ''Not Eligible''"
  then show "statusPieData (xs @ r # ys) = statusPieData (xs @ ys)"
    by (simp add: statusPieData_def approvedCount_def reviewCount_def rejectedCount_def)
  show "totalCases (xs @ r # ys) = Suc (totalCases (xs @ ys))"
    by (simp add: totalCases_def)
  show "avgScore (xs @ r # ys)
            = Some ((sum_list (map (\<lambda>r. num_or (percentage r) 0) (xs @ ys))
                       + num_or (percentage r) 0)
                    / of_nat (Suc (length (xs @ ys))))"
    by (simp add: avgScore_def js_divide_def foldl_add_percentage add.commute add.left_commute)
qed

theorem eligibility_buckets_witness:
  "eligibility_status result_pending \<noteq> Some ''Eligible''
   \<and> eligibility_status result_pending \<noteq> Some ''Review Required''
   \<and> eligibility_status result_pending \<noteq> Some ''Not Eligible''
   \<and> statusPieData [result_85, result_pending, result_55] = [1, 0, 1]
   \<and> totalCases [result_85, result_pending, result_55] = 3
   \<and> avgScore [result_85, result_pending, result_55] = Some 60
   \<and> approvedCount [result_85, result_pending, result_55]
       + reviewCount [result_85, result_pending, result_55]
       + rejectedCount [result_85, result_pending, result_55]
       \<noteq> totalCases [result_85, result_pending, result_55]"
proof -
  have other: "eligibility_status result_pending \<noteq> Some ''Eligible''
     \<and> eligibility_status result_pending \<noteq> Some ''Review Required''
     \<and> eligibility_status result_pending \<noteq> Some ''Not Eligible''"
    by (simp add: result_pending_def)
  have base: "statusPieData [result_85, result_55] = [1, 0, 1]"
    by (simp add: statusPieData_def approvedCount_def reviewCount_def rejectedCount_def
        result_85_def result_55_def)
  have tot: "totalCases [result_85, result_55] = 2"
    by (simp add: totalCases_def)
  have pcts: "num_or (percentage result_85) 0 = 85" "num_or (percentage result_55) 0 = 55"
    "num_or (percentage result_pending) 0 = 40"
    by (simp_all add: result_85_def result_55_def result_pending_def)
  note inst = eligibility_buckets[of result_pending "[result_85, result_pending, result_55]"
      "[result_85]" "[result_55]"]
  have mem: "\<not> (\<forall>r \<in> set [result_85, result_pending, result_55].
      eligibility_status r = Some ''Eligible''
      \<or> eligibility_status r = Some ''Review Required''
      \<or> eligibility_status r = Some ''Not Eligible'')"
    using other by simp
  from inst other base tot pcts mem show ?thesis
    by simp
qed

end
